theory Spec2Isabelle
  imports Main "HOL-Library.Sublist"
begin

section \<open>Python string operations used by the handlers\<close>

text \<open>
  A Python \<^verbatim>\<open>str\<close> is a sequence of Unicode code points: a list of natural numbers.
  The operations that only compare and move the elements of a string are written for
  lists of any element type.
\<close>

text \<open>
  \<^verbatim>\<open>s.find(sub)\<close>: the lowest index at which \<open>sub\<close> starts in \<open>s\<close>, or \<open>-1\<close> when
  \<open>sub\<close> does not occur. \<open>find_at sub s i\<close> scans \<open>s\<close>, the rest of the string from
  index \<open>i\<close> on.
\<close>

fun find_at :: "'a list \<Rightarrow> 'a list \<Rightarrow> nat \<Rightarrow> int" where
  "find_at sub [] i = (if sub = [] then int i else - 1)"
| "find_at sub (c # cs) i =
     (if prefix sub (c # cs) then int i else find_at sub cs (Suc i))"

definition str_find :: "'a list \<Rightarrow> 'a list \<Rightarrow> int" where
  "str_find s sub = find_at sub s 0"

text \<open>
  \<^verbatim>\<open>s[:i]\<close>: a negative \<open>i\<close> counts from the end of the string, and an index beyond
  either end is clipped.
\<close>

definition slice_to :: "'a list \<Rightarrow> int \<Rightarrow> 'a list" where
  "slice_to s i =
     (if 0 \<le> i then take (nat i) s else take (length s - nat (- i)) s)"

text \<open>
  \<^verbatim>\<open>s.replace(old, new)\<close> for a one-character \<open>old\<close>, the only form the code uses:
  every occurrence of the character is replaced by \<open>new\<close>.
\<close>

definition str_replace :: "'a \<Rightarrow> 'a list \<Rightarrow> 'a list \<Rightarrow> 'a list" where
  "str_replace old new s = concat (map (\<lambda>c. if c = old then new else [c]) s)"

text \<open>
  \<^verbatim>\<open>s.upper()\<close> replaces every code point by its uppercase mapping, one code point at
  a time and whatever its neighbours are; the mapping of one code point can be several
  code points (U+00DF becomes \<^verbatim>\<open>SS\<close>). Below 128 the mapping sends \<^verbatim>\<open>a\<close>..\<^verbatim>\<open>z\<close>
  (97..122) to \<^verbatim>\<open>A\<close>..\<^verbatim>\<open>Z\<close> (65..90) and leaves the rest alone. From 128 on it is read
  from the Unicode tables of the interpreter, which are not code of this repository:
  \<open>mapping c\<close> is the tables' entry for the code point \<open>c\<close>, and \<open>None\<close> says that \<open>c\<close>
  has no uppercase mapping and stays as it is.
\<close>

definition upper_code_point :: "(nat \<rightharpoonup> nat list) \<Rightarrow> nat \<Rightarrow> nat list" where
  "upper_code_point mapping c =
     (if c < 128 then [if 97 \<le> c \<and> c \<le> 122 then c - 32 else c]
      else (case mapping c of None \<Rightarrow> [c] | Some cs \<Rightarrow> cs))"

definition unicode_upper :: "(nat \<rightharpoonup> nat list) \<Rightarrow> nat list \<Rightarrow> nat list" where
  "unicode_upper mapping s = concat (map (upper_code_point mapping) s)"

text \<open>
  A lowercase letter, as \<^verbatim>\<open>str.islower\<close> sees one code point: \<^verbatim>\<open>a\<close>..\<^verbatim>\<open>z\<close> below 128;
  from 128 on, what the same tables say, \<open>lowercase c\<close>.
\<close>

definition lowercase_letter :: "(nat \<Rightarrow> bool) \<Rightarrow> nat \<Rightarrow> bool" where
  "lowercase_letter lowercase c = (if c < 128 then 97 \<le> c \<and> c \<le> 122 else lowercase c)"

text \<open>
  The rule names, playbook ids and resource ids that the processor and the loader work
  on are ASCII text. They are modelled as \<^typ>\<open>string\<close>, a list of 8-bit characters, and
  \<open>code_points\<close> gives the code points of such a string. On ASCII text
  \<^verbatim>\<open>s.upper()\<close> is \<open>str_upper\<close>, which needs no table.
\<close>

definition code_points :: "string \<Rightarrow> nat list" where
  "code_points s = map of_char s"

definition upper_char :: "char \<Rightarrow> char" where
  "upper_char c =
     (let n = (of_char c :: nat)
      in if 97 \<le> n \<and> n \<le> 122 then char_of (n - 32) else c)"

definition str_upper :: "string \<Rightarrow> string" where
  "str_upper s = map upper_char s"

section \<open>The compliance processor: \<^verbatim>\<open>get_prefix\<close>\<close>

definition marker :: string where
  "marker = ''-CONFORMANCE-PACK-''"

text \<open>
  \<^verbatim>\<open>get_prefix\<close> on any Python string, given the uppercase mappings of the code points
  from 128 on. The code point of the hyphen is 45.
\<close>

definition get_prefix_unicode :: "(nat \<rightharpoonup> nat list) \<Rightarrow> nat list \<Rightarrow> nat list" where
  "get_prefix_unicode mapping config_rule_name =
     (let config_rule_name = unicode_upper mapping config_rule_name;
          i = str_find config_rule_name (code_points marker);
          pfx = (if i \<noteq> - 1 then slice_to config_rule_name i else config_rule_name)
      in str_replace (of_char (CHR ''-'')) [] pfx)"

text \<open>
  \<^verbatim>\<open>get_prefix\<close> on ASCII text. It gives what \<open>get_prefix_unicode\<close> gives on the code
  points of the string, whatever the tables are (\<open>get_prefix_unicode_ascii\<close> below).
\<close>

definition get_prefix :: "string \<Rightarrow> string" where
  "get_prefix config_rule_name =
     (let config_rule_name = str_upper config_rule_name;
          i = str_find config_rule_name marker;
          pfx = (if i \<noteq> - 1 then slice_to config_rule_name i else config_rule_name)
      in str_replace (CHR ''-'') [] pfx)"

section \<open>The compliance processor: \<^verbatim>\<open>process_remediations\<close>\<close>

text \<open>
  The API response is a dictionary read with \<^verbatim>\<open>.get\<close>, which gives \<^verbatim>\<open>None\<close> for a
  missing key: every field read that way is an \<open>option\<close>.
\<close>

record qualifier =
  q_ConfigRuleName :: "string option"
  q_ResourceType :: "string option"
  q_ResourceId :: "string option"

record result_identifier =
  EvaluationResultQualifier :: "qualifier option"

record evaluation_result =
  ComplianceType :: "string option"
  EvaluationResultIdentifier :: "result_identifier option"

record detail_response =
  ConformancePackName :: "string option"
  ConformancePackRuleEvaluationResults :: "evaluation_result list option"
  NextToken :: "string option"

text \<open>
  One entry of the playbook table, as \<^verbatim>\<open>load_playbooks\<close> builds it. The four effort
  fields are only copied, so their type \<open>'v\<close> is left open.
\<close>

record 'v playbook =
  PlaybookId :: string
  LOEHours :: 'v
  LOESprints :: 'v
  SkillLevel :: 'v
  Rank :: 'v

text \<open>The dictionary \<^verbatim>\<open>remediation\<close> that the inner loop builds.\<close>

record 'v remediation =
  ConfigRuleNamePlaybookIdResourceId :: string
  r_ConfigRuleName :: "string option"
  r_ConfigRuleNamePrefix :: string
  r_PlaybookId :: string
  r_ResourceType :: "string option"
  r_ResourceId :: "string option"
  r_LOEHours :: 'v
  r_LOESprints :: 'v
  r_SkillLevel :: 'v
  r_Rank :: 'v

datatype error = AttributeError | TypeError

type_synonym 'v playbooks = "string \<rightharpoonup> 'v playbook list"

text \<open>
  The session state: the list \<^verbatim>\<open>remediations\<close> and the dictionary \<^verbatim>\<open>keys\<close>, which
  the code uses as a set (\<^verbatim>\<open>keys[key] = 1\<close>, \<^verbatim>\<open>key in keys\<close>).
\<close>

type_synonym 'v session = "'v remediation list \<times> (string \<rightharpoonup> int)"

text \<open>
  The loop \<^verbatim>\<open>for playbook in config_playbooks\<close> (lines 81 to 101). The key is
  \<^verbatim>\<open>prefix + playbook_id + qualifier.get('ResourceId')\<close>, which raises \<^verbatim>\<open>TypeError\<close>
  when the resource id is \<^verbatim>\<open>None\<close>. The variable \<^verbatim>\<open>prefix\<close> of the source is \<open>pfx\<close> here.
\<close>

fun process_playbooks ::
  "string \<Rightarrow> qualifier \<Rightarrow> 'v playbook list \<Rightarrow> 'v session \<Rightarrow> error + 'v session" where
  "process_playbooks pfx qual [] (remediations, keys) = Inr (remediations, keys)"
| "process_playbooks pfx qual (playbook # rest) (remediations, keys) =
     (let playbook_id = PlaybookId playbook in
      case q_ResourceId qual of
        None \<Rightarrow> Inl TypeError
      | Some resource_id \<Rightarrow>
          (let key = pfx @ playbook_id @ resource_id in
           if keys key \<noteq> None then process_playbooks pfx qual rest (remediations, keys)
           else process_playbooks pfx qual rest
                  (remediations @
                     [\<lparr>ConfigRuleNamePlaybookIdResourceId = key,
                       r_ConfigRuleName = q_ConfigRuleName qual,
                       r_ConfigRuleNamePrefix = pfx,
                       r_PlaybookId = playbook_id,
                       r_ResourceType = q_ResourceType qual,
                       r_ResourceId = q_ResourceId qual,
                       r_LOEHours = LOEHours playbook,
                       r_LOESprints = LOESprints playbook,
                       r_SkillLevel = SkillLevel playbook,
                       r_Rank = Rank playbook\<rparr>],
                   keys(key \<mapsto> 1))))"

text \<open>
  The body of \<^verbatim>\<open>for result in results\<close> (lines 73 to 101). \<^verbatim>\<open>.get\<close> on \<^verbatim>\<open>None\<close> and
  \<^verbatim>\<open>None.upper()\<close> raise \<^verbatim>\<open>AttributeError\<close>; \<^verbatim>\<open>if config_playbooks:\<close> is false for
  \<^verbatim>\<open>None\<close> and for the empty list.
\<close>

definition process_result ::
  "'v playbooks \<Rightarrow> evaluation_result \<Rightarrow> 'v session \<Rightarrow> error + 'v session" where
  "process_result playbooks result st =
     (if ComplianceType result = Some ''NON_COMPLIANT'' then
        (case EvaluationResultIdentifier result of
           None \<Rightarrow> Inl AttributeError
         | Some ident \<Rightarrow>
             (case EvaluationResultQualifier ident of
                None \<Rightarrow> Inl AttributeError
              | Some qual \<Rightarrow>
                  (case q_ConfigRuleName qual of
                     None \<Rightarrow> Inl AttributeError
                   | Some config_rule_name \<Rightarrow>
                       (let pfx = get_prefix config_rule_name in
                        case playbooks pfx of
                          None \<Rightarrow> Inr st
                        | Some config_playbooks \<Rightarrow>
                            if config_playbooks \<noteq> []
                            then process_playbooks pfx qual config_playbooks st
                            else Inr st))))
      else Inr st)"

fun process_results ::
  "'v playbooks \<Rightarrow> evaluation_result list \<Rightarrow> 'v session \<Rightarrow> error + 'v session" where
  "process_results playbooks [] st = Inr st"
| "process_results playbooks (result # results) st =
     (case process_result playbooks result st of
        Inl e \<Rightarrow> Inl e
      | Inr st' \<Rightarrow> process_results playbooks results st')"

text \<open>
  \<^verbatim>\<open>process_remediations\<close>: iterating over \<^verbatim>\<open>None\<close>, when the response has no
  result list, raises \<^verbatim>\<open>TypeError\<close>.
\<close>

definition process_remediations ::
  "detail_response \<Rightarrow> 'v playbooks \<Rightarrow> 'v remediation list \<Rightarrow> (string \<rightharpoonup> int)
     \<Rightarrow> error + 'v session" where
  "process_remediations detail_response playbooks remediations keys =
     (case ConformancePackRuleEvaluationResults detail_response of
        None \<Rightarrow> Inl TypeError
      | Some results \<Rightarrow> process_results playbooks results (remediations, keys))"

text \<open>
  The remediation thread of \<^verbatim>\<open>get_details\<close>: it starts from \<^verbatim>\<open>remediations = []\<close> and
  \<^verbatim>\<open>keys = {}\<close> (lines 112 and 113) and passes the pair returned by one call of
  \<^verbatim>\<open>process_remediations\<close> to the next (lines 123 and 132). \<open>pages\<close> is the sequence of
  responses the client returned, over all conformance packs, in call order.
\<close>

fun process_pages ::
  "'v playbooks \<Rightarrow> detail_response list \<Rightarrow> 'v session \<Rightarrow> error + 'v session" where
  "process_pages playbooks [] st = Inr st"
| "process_pages playbooks (detail_response # pages) (remediations, keys) =
     (case process_remediations detail_response playbooks remediations keys of
        Inl e \<Rightarrow> Inl e
      | Inr st' \<Rightarrow> process_pages playbooks pages st')"

definition get_details_remediations ::
  "'v playbooks \<Rightarrow> detail_response list \<Rightarrow> error + 'v session" where
  "get_details_remediations playbooks pages = process_pages playbooks pages ([], Map.empty)"

text \<open>The triple a work item stands for.\<close>

definition triple :: "'v remediation \<Rightarrow> string \<times> string \<times> string option" where
  "triple r = (r_ConfigRuleNamePrefix r, r_PlaybookId r, r_ResourceId r)"

section \<open>The catalog loader\<close>

text \<open>
  A spreadsheet cell is text or something else (a number, \<^verbatim>\<open>None\<close> for a missing
  column). The loader looks at a cell that is not text only through \<^verbatim>\<open>str()\<close> and
  through its truth value, so such a cell is represented by these two.
\<close>

datatype cell = Text string | NonText string bool

fun py_str :: "cell \<Rightarrow> string" where
  "py_str (Text s) = s"
| "py_str (NonText shown truth) = shown"

fun truthy :: "cell \<Rightarrow> bool" where
  "truthy (Text s) = (s \<noteq> [])"
| "truthy (NonText shown truth) = truth"

definition INCONSISTENT_NAMES :: "string \<rightharpoonup> string" where
  "INCONSISTENT_NAMES = map_of
     [(''ec2-instance-managed-by-systems-manager'', ''ec2-instance-managed-by-ssm''),
      (''ec2-instances-in-vpc'', ''instances-in-vpc''),
      (''restricted-common-ports'', ''restricted-incoming-traffic''),
      (''restricted-ssh'', ''incoming-ssh-disabled''),
      (''iam-password-policy'', ''iam-password-policy-check'')]"

text \<open>
  \<^verbatim>\<open>build_normalized_name\<close>: only a text cell can be a key of \<^verbatim>\<open>INCONSISTENT_NAMES\<close>.
  The parameter \<^verbatim>\<open>id\<close> of the source is \<open>id0\<close> on entry and \<open>id1\<close> after the renaming.
\<close>

definition build_normalized_name :: "cell \<Rightarrow> string" where
  "build_normalized_name id0 =
     (let id1 = (case id0 of
                   Text s \<Rightarrow> (case INCONSISTENT_NAMES s of Some t \<Rightarrow> Text t | None \<Rightarrow> id0)
                 | NonText shown truth \<Rightarrow> id0);
          name = py_str id1;
          name = str_upper name;
          name = str_replace (CHR ''-'') [] name;
          name = str_replace (CHR ''_'') [] name
      in name)"

text \<open>A row of the sheet, by column, and an item handed to the table.\<close>

record row =
  AWS_Config :: cell
  Playbook_ID :: cell
  row_LOEHours :: cell
  row_LOESprints :: cell
  row_SkillLevel :: cell
  row_Rank :: cell

datatype item_value = StrVal string | IntVal int

record item =
  i_ConfigRuleName :: string
  i_PlaybookId :: string
  i_LOEHours :: item_value
  i_LOESprints :: item_value
  i_SkillLevel :: item_value
  i_Rank :: item_value

definition DEFAULT_LOE_HOURS :: int where "DEFAULT_LOE_HOURS = 1"
definition DEFAULT_LOE_SPRINTS :: int where "DEFAULT_LOE_SPRINTS = 1"
definition DEFAULT_SKILL_LEVEL :: int where "DEFAULT_SKILL_LEVEL = 1"
definition DEFAULT_RANK :: int where "DEFAULT_RANK = 1"

text \<open>
  The loop of \<^verbatim>\<open>main\<close> over the rows (lines 80 to 114). The key is
  \<^verbatim>\<open>item['ConfigRuleName'] + '_' + item['PlaybookId']\<close>, which raises \<^verbatim>\<open>TypeError\<close>
  when the playbook cell is not text. \<^verbatim>\<open>str(DEFAULT_LOE_HOURS)\<close> is \<^verbatim>\<open>'1'\<close>; the
  other three defaults are stored as the integers they are.
\<close>

fun main_loop :: "row list \<Rightarrow> item list \<times> (string \<rightharpoonup> int) \<Rightarrow> error + item list \<times> (string \<rightharpoonup> int)" where
  "main_loop [] (items, keys) = Inr (items, keys)"
| "main_loop (row # rows) (items, keys) =
     (let config_rule_id = AWS_Config row;
          playbook_id = Playbook_ID row in
      if truthy config_rule_id \<and> truthy playbook_id then
        (let name = build_normalized_name config_rule_id in
         case playbook_id of
           NonText shown truth \<Rightarrow> Inl TypeError
         | Text pid \<Rightarrow>
             (let key = name @ ''_'' @ pid in
              if keys key = None then
                main_loop rows
                  (items @
                     [\<lparr>i_ConfigRuleName = name,
                       i_PlaybookId = pid,
                       i_LOEHours =
                         (if truthy (row_LOEHours row) then StrVal (py_str (row_LOEHours row))
                          else StrVal ''1''),
                       i_LOESprints =
                         (if truthy (row_LOESprints row) then StrVal (py_str (row_LOESprints row))
                          else IntVal DEFAULT_LOE_SPRINTS),
                       i_SkillLevel =
                         (if truthy (row_SkillLevel row) then StrVal (py_str (row_SkillLevel row))
                          else IntVal DEFAULT_SKILL_LEVEL),
                       i_Rank =
                         (if truthy (row_Rank row) then StrVal (py_str (row_Rank row))
                          else IntVal DEFAULT_RANK)\<rparr>],
                   keys(key \<mapsto> 1))
              else main_loop rows (items, keys)))
      else main_loop rows (items, keys))"

text \<open>\<^verbatim>\<open>main\<close>: the items it hands to the batch writer, from \<^verbatim>\<open>items = []\<close>, \<^verbatim>\<open>keys = {}\<close>.\<close>

definition main_items :: "row list \<Rightarrow> error + item list" where
  "main_items rows =
     (case main_loop rows ([], Map.empty) of
        Inl e \<Rightarrow> Inl e
      | Inr (items, keys) \<Rightarrow> Inr items)"

section \<open>Predicates on the session state\<close>

text \<open>
  A work item is well keyed when its key is its prefix, playbook id and resource id
  put together. \<open>appended st new st'\<close> says that \<open>st'\<close> is \<open>st\<close> with the items \<open>new\<close>
  added at the end of the list and exactly their keys, all new and all different,
  added to the key set. \<open>session_inv\<close> is the invariant of a session: no key twice in
  the list, and every key of the list recorded in the key set.
\<close>

definition well_keyed :: "'v remediation \<Rightarrow> bool" where
  "well_keyed r =
     (case r_ResourceId r of
        None \<Rightarrow> False
      | Some resource_id \<Rightarrow>
          ConfigRuleNamePlaybookIdResourceId r =
            r_ConfigRuleNamePrefix r @ r_PlaybookId r @ resource_id)"

definition appended :: "'v session \<Rightarrow> 'v remediation list \<Rightarrow> 'v session \<Rightarrow> bool" where
  "appended st new st' =
     (fst st' = fst st @ new
      \<and> distinct (map ConfigRuleNamePlaybookIdResourceId new)
      \<and> set (map ConfigRuleNamePlaybookIdResourceId new) \<inter> dom (snd st) = {}
      \<and> dom (snd st') = dom (snd st) \<union> set (map ConfigRuleNamePlaybookIdResourceId new)
      \<and> (\<forall>r \<in> set new. well_keyed r))"

definition session_inv :: "'v session \<Rightarrow> bool" where
  "session_inv st =
     (distinct (map ConfigRuleNamePlaybookIdResourceId (fst st))
      \<and> set (map ConfigRuleNamePlaybookIdResourceId (fst st)) \<subseteq> dom (snd st)
      \<and> (\<forall>r \<in> set (fst st). well_keyed r))"

text \<open>
  A result from which \<^verbatim>\<open>process_remediations\<close> cannot read a rule name: the
  identifier, the qualifier or the qualifier's \<^verbatim>\<open>ConfigRuleName\<close> is missing.
\<close>

definition lacks_rule_name :: "evaluation_result \<Rightarrow> bool" where
  "lacks_rule_name result =
     (case EvaluationResultIdentifier result of
        None \<Rightarrow> True
      | Some ident \<Rightarrow>
          (case EvaluationResultQualifier ident of
             None \<Rightarrow> True
           | Some qual \<Rightarrow> q_ConfigRuleName qual = None))"

text \<open>
  The loader's own key for an item, \<^verbatim>\<open>item['ConfigRuleName'] + '_' + item['PlaybookId']\<close>,
  and the invariant of its loop: no key twice among the items, every key of an item
  recorded in \<^verbatim>\<open>keys\<close>.
\<close>

definition item_key :: "item \<Rightarrow> string" where
  "item_key i = i_ConfigRuleName i @ ''_'' @ i_PlaybookId i"

definition loader_inv :: "item list \<times> (string \<rightharpoonup> int) \<Rightarrow> bool" where
  "loader_inv st =
     (distinct (map item_key (fst st)) \<and> set (map item_key (fst st)) \<subseteq> dom (snd st))"

section \<open>The scenario of the specification\<close>

text \<open>
  The end-to-end scenario: one playbook for \<^verbatim>\<open>RESTRICTEDSSH\<close>, and a page with one
  non-compliant result for a rule deployed by a conformance pack. \<open>ex_item\<close> is the
  work item expected for it.
\<close>

definition ex_qualifier :: qualifier where
  "ex_qualifier =
     \<lparr>q_ConfigRuleName = Some ''restricted-ssh-conformance-pack-ab12cd'',
      q_ResourceType = Some ''AWS::EC2::Instance'',
      q_ResourceId = Some ''i-123''\<rparr>"

definition ex_result :: evaluation_result where
  "ex_result =
     \<lparr>ComplianceType = Some ''NON_COMPLIANT'',
      EvaluationResultIdentifier = Some \<lparr>EvaluationResultQualifier = Some ex_qualifier\<rparr>\<rparr>"

definition ex_page :: detail_response where
  "ex_page =
     \<lparr>ConformancePackName = Some ''pack1'',
      ConformancePackRuleEvaluationResults = Some [ex_result],
      NextToken = None\<rparr>"

definition ex_playbook :: "string playbook" where
  "ex_playbook =
     \<lparr>PlaybookId = ''PB1'', LOEHours = ''2'', LOESprints = ''1'', SkillLevel = ''2'',
      Rank = ''1''\<rparr>"

definition ex_playbooks :: "string playbooks" where
  "ex_playbooks = [''RESTRICTEDSSH'' \<mapsto> [ex_playbook]]"

definition ex_item :: "string remediation" where
  "ex_item =
     \<lparr>ConfigRuleNamePlaybookIdResourceId = ''RESTRICTEDSSHPB1i-123'',
      r_ConfigRuleName = Some ''restricted-ssh-conformance-pack-ab12cd'',
      r_ConfigRuleNamePrefix = ''RESTRICTEDSSH'',
      r_PlaybookId = ''PB1'',
      r_ResourceType = Some ''AWS::EC2::Instance'',
      r_ResourceId = Some ''i-123'',
      r_LOEHours = ''2'', r_LOESprints = ''1'', r_SkillLevel = ''2'', r_Rank = ''1''\<rparr>"

text \<open>
  A catalog with three playbooks for the same prefix, and three malformed variants of
  the result: without a qualifier, without a rule name, without a resource id.
\<close>

definition ex_entries :: "string playbook list" where
  "ex_entries =
     [ex_playbook,
      \<lparr>PlaybookId = ''PB2'', LOEHours = ''8'', LOESprints = ''1'', SkillLevel = ''3'',
       Rank = ''2''\<rparr>,
      \<lparr>PlaybookId = ''PB3'', LOEHours = ''40'', LOESprints = ''2'', SkillLevel = ''1'',
       Rank = ''3''\<rparr>]"

definition ex_playbooks3 :: "string playbooks" where
  "ex_playbooks3 = [''RESTRICTEDSSH'' \<mapsto> ex_entries]"

definition ex_no_qualifier :: evaluation_result where
  "ex_no_qualifier =
     \<lparr>ComplianceType = Some ''NON_COMPLIANT'',
      EvaluationResultIdentifier = Some \<lparr>EvaluationResultQualifier = None\<rparr>\<rparr>"

definition ex_qualifier_no_id :: qualifier where
  "ex_qualifier_no_id = ex_qualifier\<lparr>q_ResourceId := None\<rparr>"

definition ex_no_resource_id :: evaluation_result where
  "ex_no_resource_id =
     \<lparr>ComplianceType = Some ''NON_COMPLIANT'',
      EvaluationResultIdentifier =
        Some \<lparr>EvaluationResultQualifier = Some ex_qualifier_no_id\<rparr>\<rparr>"

text \<open>A sheet row with a rule, a playbook and an effort in hours, the rest blank.\<close>

definition ex_row :: "string \<Rightarrow> string \<Rightarrow> row" where
  "ex_row rule playbook =
     \<lparr>AWS_Config = Text rule, Playbook_ID = Text playbook,
      row_LOEHours = NonText ''2'' True, row_LOESprints = Text [],
      row_SkillLevel = Text [], row_Rank = Text []\<rparr>"

text \<open>
  What the Unicode tables say about three code points from 128 on: U+00DF (sharp s)
  is lowercase and becomes \<^verbatim>\<open>SS\<close>, U+00E0 (a with grave) is lowercase and becomes
  U+00C0, U+0138 (kra) is lowercase and has no uppercase mapping.
\<close>

definition uppercase_excerpt :: "nat \<rightharpoonup> nat list" where
  "uppercase_excerpt = [223 \<mapsto> [83, 83], 224 \<mapsto> [192]]"

definition lowercase_excerpt :: "nat \<Rightarrow> bool" where
  "lowercase_excerpt c = (c = 223 \<or> c = 224 \<or> c = 312)"

section \<open>Facts about the string operations\<close>

lemma of_char_upper_char:
  "(of_char (upper_char c) :: nat) =
     (if 97 \<le> (of_char c :: nat) \<and> (of_char c :: nat) \<le> 122 then of_char c - 32 else of_char c)"
proof -
  have "(of_char c :: nat) - 32 < 256"
    using nat_of_char_less_256[of c] by arith
  then show ?thesis
    by (simp add: upper_char_def Let_def)
qed

lemma upper_char_idem: "upper_char (upper_char c) = upper_char c"
proof (rule of_char_eqI[where ?'a = nat])
  show "(of_char (upper_char (upper_char c)) :: nat) = of_char (upper_char c)"
    unfolding of_char_upper_char[of "upper_char c"]
    unfolding of_char_upper_char[of c]
    by auto
qed

lemma upper_char_eq_hyphen: "upper_char c = CHR ''-'' \<longleftrightarrow> c = CHR ''-''"
proof -
  have "upper_char c = CHR ''-'' \<longleftrightarrow> (of_char (upper_char c) :: nat) = 45"
    using of_char_eq_iff[where ?'a = nat, of "upper_char c" "CHR ''-''"] by simp
  also have "\<dots> \<longleftrightarrow> (of_char c :: nat) = 45"
    by (auto simp add: of_char_upper_char)
  also have "\<dots> \<longleftrightarrow> c = CHR ''-''"
    using of_char_eq_iff[where ?'a = nat, of c "CHR ''-''"] by simp
  finally show ?thesis .
qed


lemma str_upper_idem: "str_upper (str_upper s) = str_upper s"
  by (simp add: str_upper_def upper_char_idem)

lemma str_replace_empty: "str_replace old [] s = filter (\<lambda>c. c \<noteq> old) s"
  by (induction s) (simp_all add: str_replace_def)

lemma find_at_absent: "\<not> sublist sub s \<Longrightarrow> find_at sub s i = - 1"
proof (induction s arbitrary: i)
  case Nil
  then show ?case by auto
next
  case (Cons c cs)
  then show ?case by (simp add: sublist_Cons_right)
qed

lemma prefix_append_short:
  "prefix xs (ys @ zs) \<Longrightarrow> length xs \<le> length ys \<Longrightarrow> prefix xs ys"
  by (auto simp: prefix_append)

text \<open>
  When \<open>sub\<close> occurs after \<open>pre\<close> and nowhere earlier, \<^verbatim>\<open>find\<close> returns the length of
  \<open>pre\<close>.
\<close>

lemma find_at_first:
  "\<not> sublist sub (pre @ butlast sub) \<Longrightarrow> sub \<noteq> [] \<Longrightarrow>
   find_at sub (pre @ sub @ post) i = int (i + length pre)"
proof (induction pre arbitrary: i)
  case Nil
  then obtain c cs where "sub = c # cs" by (cases sub) auto
  then show ?case by simp
next
  case (Cons c pre)
  have split: "c # pre @ sub @ post = (c # pre @ butlast sub) @ (last sub # post)"
    using Cons.prems(2) by simp
  have np: "\<not> prefix sub (c # pre @ sub @ post)"
  proof
    assume p: "prefix sub (c # pre @ sub @ post)"
    have len: "length sub \<le> length (c # pre @ butlast sub)"
      using Cons.prems(2) by simp
    from p have "prefix sub ((c # pre @ butlast sub) @ (last sub # post))"
      by (simp only: split)
    from prefix_append_short[OF this len]
    have "sublist sub (c # pre @ butlast sub)" by (rule prefix_imp_sublist)
    with Cons.prems(1) show False by simp
  qed
  from Cons.prems(1) have "\<not> sublist sub (pre @ butlast sub)"
    by (simp add: sublist_Cons_right)
  from Cons.IH[OF this Cons.prems(2), of "Suc i"] np show ?case by simp
qed

section \<open>Facts about \<^verbatim>\<open>get_prefix\<close>\<close>

lemma marker_nonempty: "marker \<noteq> []"
  by (simp add: marker_def)



lemma get_prefix_present:
  assumes "str_upper s = pre @ marker @ post"
    and "\<not> sublist marker (pre @ butlast marker)"
  shows "get_prefix s = filter (\<lambda>c. c \<noteq> CHR ''-'') pre"
proof -
  have "str_find (str_upper s) marker = int (length pre)"
    using find_at_first[OF assms(2) marker_nonempty, of post 0]
    by (simp add: str_find_def assms(1))
  then show ?thesis
    by (simp add: get_prefix_def Let_def slice_to_def str_replace_empty assms(1))
qed

lemma set_slice_to: "set (slice_to s i) \<subseteq> set s"
  by (auto simp: slice_to_def dest: in_set_takeD)





section \<open>Facts about \<^verbatim>\<open>get_prefix\<close> on any string\<close>

lemma marker_code_points_nonempty: "code_points marker \<noteq> []"
  by (simp add: code_points_def marker_def)

lemma get_prefix_unicode_absent:
  "\<not> sublist (code_points marker) (unicode_upper mapping s) \<Longrightarrow>
   get_prefix_unicode mapping s = filter (\<lambda>c. c \<noteq> 45) (unicode_upper mapping s)"
  by (simp add: get_prefix_unicode_def str_find_def find_at_absent str_replace_empty)

lemma get_prefix_unicode_present:
  assumes "unicode_upper mapping s = pre @ code_points marker @ post"
    and "\<not> sublist (code_points marker) (pre @ butlast (code_points marker))"
  shows "get_prefix_unicode mapping s = filter (\<lambda>c. c \<noteq> 45) pre"
proof -
  have "str_find (unicode_upper mapping s) (code_points marker) = int (length pre)"
    using find_at_first[OF assms(2) marker_code_points_nonempty, of post 0]
    by (simp add: str_find_def assms(1))
  then show ?thesis
    by (simp add: get_prefix_unicode_def Let_def slice_to_def str_replace_empty assms(1))
qed

lemma set_get_prefix_unicode:
  "set (get_prefix_unicode mapping s) \<subseteq> set (unicode_upper mapping s) - {45}"
  using set_slice_to[of "unicode_upper mapping s"
      "str_find (unicode_upper mapping s) (code_points marker)"]
  by (auto simp: get_prefix_unicode_def Let_def str_replace_empty)

lemma upper_code_point_ascii:
  "c < 128 \<Longrightarrow> upper_code_point mapping c = [if 97 \<le> c \<and> c \<le> 122 then c - 32 else c]"
  by (simp add: upper_code_point_def)

lemma unicode_upper_ascii_set:
  assumes "\<forall>c \<in> set s. c < 128" and "d \<in> set (unicode_upper mapping s)"
  shows "d < 128 \<and> \<not> (97 \<le> d \<and> d \<le> 122)"
proof -
  from assms(2) obtain c where c: "c \<in> set s" and d: "d \<in> set (upper_code_point mapping c)"
    by (auto simp: unicode_upper_def)
  from c assms(1) have "c < 128" by blast
  with d have "d = (if 97 \<le> c \<and> c \<le> 122 then c - 32 else c)"
    by (simp add: upper_code_point_ascii)
  with \<open>c < 128\<close> show ?thesis by (auto split: if_splits)
qed

lemma get_prefix_unicode_ascii_no_lower:
  assumes "\<forall>c \<in> set s. c < 128" and "d \<in> set (get_prefix_unicode mapping s)"
  shows "\<not> lowercase_letter lowercase d"
proof -
  from assms(2) set_get_prefix_unicode[of mapping s]
  have "d \<in> set (unicode_upper mapping s)" by blast
  from unicode_upper_ascii_set[OF assms(1) this] show ?thesis
    by (simp add: lowercase_letter_def)
qed

text \<open>
  On ASCII text the two models agree: the code points of what \<open>get_prefix\<close> returns
  are what \<open>get_prefix_unicode\<close> returns on the code points of the name, whatever the
  tables say from 128 on.
\<close>

lemma prefix_map_inj:
  "inj f \<Longrightarrow> prefix (map f xs) (map f ys) \<longleftrightarrow> prefix xs ys"
proof (induction xs arbitrary: ys)
  case Nil
  show ?case by simp
next
  case (Cons x xs)
  then show ?case by (cases ys) (auto simp: inj_eq)
qed

lemma find_at_map_inj:
  "inj f \<Longrightarrow> find_at (map f sub) (map f s) i = find_at sub s i"
proof (induction s arbitrary: i)
  case Nil
  then show ?case by simp
next
  case (Cons c cs)
  from Cons.prems have "prefix (map f sub) (map f (c # cs)) \<longleftrightarrow> prefix sub (c # cs)"
    by (rule prefix_map_inj)
  with Cons show ?case by simp
qed

lemma inj_of_char_nat: "inj (of_char :: char \<Rightarrow> nat)"
  by (rule inj_of_char)

lemma slice_to_map: "slice_to (map f s) i = map f (slice_to s i)"
  by (simp add: slice_to_def take_map)

lemma of_char_eq_45: "((of_char c :: nat) = 45) = (c = CHR ''-'')"
  using of_char_eq_iff[where ?'a = nat, of c "CHR ''-''"] by simp

lemma filter_hyphen_code_points:
  "filter (\<lambda>c. c \<noteq> 45) (code_points s) = code_points (filter (\<lambda>c. c \<noteq> CHR ''-'') s)"
  by (induction s) (simp_all add: code_points_def of_char_eq_45)

lemma unicode_upper_code_points:
  "\<forall>c \<in> set s. (of_char c :: nat) < 128 \<Longrightarrow>
   unicode_upper mapping (code_points s) = code_points (str_upper s)"
proof (induction s)
  case Nil
  show ?case by (simp add: unicode_upper_def code_points_def str_upper_def)
next
  case (Cons c cs)
  then have ih: "unicode_upper mapping (code_points cs) = code_points (str_upper cs)"
    and c: "(of_char c :: nat) < 128" by simp_all
  have "upper_code_point mapping (of_char c) = [of_char (upper_char c)]"
    using c by (simp add: upper_code_point_ascii of_char_upper_char)
  with ih show ?case
    by (simp add: unicode_upper_def code_points_def str_upper_def)
qed

lemma get_prefix_unicode_ascii:
  assumes "\<forall>c \<in> set s. (of_char c :: nat) < 128"
  shows "get_prefix_unicode mapping (code_points s) = code_points (get_prefix s)"
proof -
  have f: "str_find (code_points (str_upper s)) (code_points marker)
      = str_find (str_upper s) marker"
    unfolding str_find_def code_points_def
    by (rule find_at_map_inj[OF inj_of_char_nat])
  have sl: "\<And>i. slice_to (code_points (str_upper s)) i = code_points (slice_to (str_upper s) i)"
    by (simp add: code_points_def slice_to_map)
  show ?thesis
    unfolding get_prefix_unicode_def get_prefix_def Let_def
      unicode_upper_code_points[OF assms] f str_replace_empty
    by (simp add: sl filter_hyphen_code_points)
qed

section \<open>Claims about \<^verbatim>\<open>get_prefix\<close>\<close>

text \<open>
  C2, as stated, fails: the code can return a lowercase letter. For the one-letter name
  U+0138 (kra, a lowercase letter with no uppercase mapping) \<^verbatim>\<open>upper()\<close> changes
  nothing, and \<^verbatim>\<open>get_prefix\<close> returns that letter.
\<close>

theorem get_prefix_lowercase_counterexample:
  "get_prefix_unicode uppercase_excerpt [312] = [312]
   \<and> lowercase_letter lowercase_excerpt 312"
  by (simp add: get_prefix_unicode_def unicode_upper_def upper_code_point_def
      uppercase_excerpt_def str_find_def code_points_def marker_def str_replace_def
      lowercase_letter_def lowercase_excerpt_def)

text \<open>
  C2, amended. \<^verbatim>\<open>get_prefix\<close> is a total function of its string argument, whatever
  the Unicode tables of the interpreter are. When the marker \<^verbatim>\<open>-CONFORMANCE-PACK-\<close>
  does not occur in the uppercased name, the result is the uppercased name without its
  hyphens. When the uppercased name is \<open>pre\<close>, the marker, \<open>post\<close>, and the marker does
  not start anywhere before the end of \<open>pre\<close> (this is its first occurrence), the
  result is \<open>pre\<close> without its hyphens. The two examples of the specification evaluate
  as stated. The result never holds a hyphen, and for a name of ASCII characters only
  it holds no lowercase letter.
\<close>

theorem get_prefix_unicode_spec:
  "(\<not> sublist (code_points marker) (unicode_upper mapping s) \<longrightarrow>
      get_prefix_unicode mapping s = filter (\<lambda>c. c \<noteq> 45) (unicode_upper mapping s))
   \<and> (unicode_upper mapping s = pre @ code_points marker @ post
        \<and> \<not> sublist (code_points marker) (pre @ butlast (code_points marker)) \<longrightarrow>
      get_prefix_unicode mapping s = filter (\<lambda>c. c \<noteq> 45) pre)
   \<and> get_prefix_unicode mapping (code_points ''ABC-CONFORMANCE-PACK-XYZ123'') = code_points ''ABC''
   \<and> get_prefix_unicode mapping (code_points ''my-rule-name'') = code_points ''MYRULENAME''
   \<and> 45 \<notin> set (get_prefix_unicode mapping s)
   \<and> ((\<forall>c \<in> set s. c < 128) \<longrightarrow>
        (\<forall>c \<in> set (get_prefix_unicode mapping s). \<not> lowercase_letter lowercase c))"
proof -
  have a1: "\<forall>c \<in> set ''ABC-CONFORMANCE-PACK-XYZ123''. (of_char c :: nat) < 128" by simp
  have a2: "\<forall>c \<in> set ''my-rule-name''. (of_char c :: nat) < 128" by simp
  have g1: "get_prefix ''ABC-CONFORMANCE-PACK-XYZ123'' = ''ABC''" by code_simp
  have g2: "get_prefix ''my-rule-name'' = ''MYRULENAME''" by code_simp
  have e1: "get_prefix_unicode mapping (code_points ''ABC-CONFORMANCE-PACK-XYZ123'')
      = code_points ''ABC''"
    by (simp only: get_prefix_unicode_ascii[OF a1] g1)
  have e2: "get_prefix_unicode mapping (code_points ''my-rule-name'') = code_points ''MYRULENAME''"
    by (simp only: get_prefix_unicode_ascii[OF a2] g2)
  have nh: "45 \<notin> set (get_prefix_unicode mapping s)"
    using set_get_prefix_unicode[of mapping s] by auto
  show ?thesis
    using get_prefix_unicode_absent[of mapping s] get_prefix_unicode_present[of mapping s pre post]
      get_prefix_unicode_ascii_no_lower[of s _ mapping lowercase] e1 e2 nh
    by blast
qed

theorem get_prefix_unicode_spec_witness:
  "\<not> sublist (code_points marker)
        (unicode_upper uppercase_excerpt (223 # code_points ''-rule''))
   \<and> get_prefix_unicode uppercase_excerpt (223 # code_points ''-rule'') = code_points ''SSRULE''
   \<and> unicode_upper uppercase_excerpt (code_points ''s3-x-conformance-pack-q1'')
       = code_points ''S3-X'' @ code_points marker @ code_points ''Q1''
   \<and> \<not> sublist (code_points marker) (code_points ''S3-X'' @ butlast (code_points marker))
   \<and> get_prefix_unicode uppercase_excerpt (code_points ''s3-x-conformance-pack-q1'')
       = code_points ''S3X''
   \<and> list_all (\<lambda>c. c < 128) (code_points ''my-rule'')
   \<and> 77 \<in> set (get_prefix_unicode uppercase_excerpt (code_points ''my-rule''))
   \<and> \<not> lowercase_letter lowercase_excerpt 77"
proof -
  have a: "\<not> sublist (code_points marker)
        (unicode_upper uppercase_excerpt (223 # code_points ''-rule''))"
    by code_simp
  have u: "filter (\<lambda>c. c \<noteq> 45) (unicode_upper uppercase_excerpt (223 # code_points ''-rule''))
      = code_points ''SSRULE''"
    by code_simp
  have b: "unicode_upper uppercase_excerpt (code_points ''s3-x-conformance-pack-q1'')
       = code_points ''S3-X'' @ code_points marker @ code_points ''Q1''"
    by code_simp
  have c: "\<not> sublist (code_points marker) (code_points ''S3-X'' @ butlast (code_points marker))"
    by code_simp
  have f: "filter (\<lambda>c. c \<noteq> 45) (code_points ''S3-X'') = code_points ''S3X''"
    by code_simp
  have l: "list_all (\<lambda>c. c < 128) (code_points ''my-rule'')"
    by code_simp
  then have l': "\<forall>c \<in> set (code_points ''my-rule''). c < 128"
    by (simp only: list_all_iff)
  have m: "77 \<in> set (get_prefix_unicode uppercase_excerpt (code_points ''my-rule''))"
    by code_simp
  from get_prefix_unicode_spec[of uppercase_excerpt "223 # code_points ''-rule''"] a u
  have g1: "get_prefix_unicode uppercase_excerpt (223 # code_points ''-rule'')
      = code_points ''SSRULE''"
    by simp
  from get_prefix_unicode_spec[of uppercase_excerpt "code_points ''s3-x-conformance-pack-q1''"
      "code_points ''S3-X''" "code_points ''Q1''"] b c f
  have g2: "get_prefix_unicode uppercase_excerpt (code_points ''s3-x-conformance-pack-q1'')
      = code_points ''S3X''"
    by simp
  from get_prefix_unicode_spec[of uppercase_excerpt "code_points ''my-rule''" _ _ lowercase_excerpt]
    l' m
  have g3: "\<not> lowercase_letter lowercase_excerpt 77"
    by blast
  from a g1 b c g2 l m g3 show ?thesis by blast
qed



section \<open>The loader's key against \<^verbatim>\<open>get_prefix\<close>\<close>







section \<open>What one call does to the session state\<close>

lemma appended_refl: "appended st [] st"
  by (simp add: appended_def)

lemma appended_same: "\<exists>new. appended st new st"
  using appended_refl by blast

lemma appended_trans:
  "appended st new1 st1 \<Longrightarrow> appended st1 new2 st2 \<Longrightarrow> appended st (new1 @ new2) st2"
  unfolding appended_def by (simp add: Int_Un_distrib2 Un_assoc) blast

lemma appended_step:
  assumes "keys key = None"
    and "ConfigRuleNamePlaybookIdResourceId item = key"
    and "well_keyed item"
    and "appended (rems @ [item], keys(key \<mapsto> 1)) new st'"
  shows "appended (rems, keys) (item # new) st'"
  using assms unfolding appended_def by (auto simp: domIff)

lemma process_playbooks_appended:
  "process_playbooks pfx qual pbs st = Inr st' \<Longrightarrow> \<exists>new. appended st new st'"
proof (induction pbs arbitrary: st)
  case Nil
  then show ?case by (cases st) (auto intro: exI[of _ "[]"] simp: appended_refl)
next
  case (Cons pb pbs)
  obtain rems keys where st: "st = (rems, keys)" by (cases st)
  from Cons.prems st obtain rid where rid: "q_ResourceId qual = Some rid"
    by (cases "q_ResourceId qual") (auto simp: Let_def)
  let ?key = "pfx @ PlaybookId pb @ rid"
  show ?case
  proof (cases "keys ?key = None")
    case False
    with Cons.prems st rid have "process_playbooks pfx qual pbs st = Inr st'"
      by (auto simp: Let_def)
    from Cons.IH[OF this] show ?thesis .
  next
    case True
    let ?item = "\<lparr>ConfigRuleNamePlaybookIdResourceId = ?key,
                       r_ConfigRuleName = q_ConfigRuleName qual,
                       r_ConfigRuleNamePrefix = pfx,
                       r_PlaybookId = PlaybookId pb,
                       r_ResourceType = q_ResourceType qual,
                       r_ResourceId = q_ResourceId qual,
                       r_LOEHours = LOEHours pb,
                       r_LOESprints = LOESprints pb,
                       r_SkillLevel = SkillLevel pb,
                       r_Rank = Rank pb\<rparr>"
    from True Cons.prems st rid
    have "process_playbooks pfx qual pbs (rems @ [?item], keys(?key \<mapsto> 1)) = Inr st'"
      by (simp add: Let_def)
    from Cons.IH[OF this] obtain new
      where new: "appended (rems @ [?item], keys(?key \<mapsto> 1)) new st'" by blast
    have wk: "well_keyed ?item" by (simp add: well_keyed_def rid)
    have "appended (rems, keys) (?item # new) st'"
      by (rule appended_step[OF True _ wk new]) simp
    then show ?thesis unfolding st by blast
  qed
qed

lemma process_result_appended:
  "process_result playbooks result st = Inr st' \<Longrightarrow> \<exists>new. appended st new st'"
  unfolding process_result_def
  by (auto simp: Let_def appended_same split: if_splits option.splits
      intro: process_playbooks_appended)

lemma process_results_appended:
  "process_results playbooks results st = Inr st' \<Longrightarrow> \<exists>new. appended st new st'"
proof (induction results arbitrary: st)
  case Nil
  then show ?case by (auto intro: exI[of _ "[]"] simp: appended_refl)
next
  case (Cons r rs)
  from Cons.prems obtain st1 where s1: "process_result playbooks r st = Inr st1"
    and s2: "process_results playbooks rs st1 = Inr st'"
    by (auto split: sum.splits)
  from process_result_appended[OF s1] obtain n1 where "appended st n1 st1" by blast
  moreover from Cons.IH[OF s2] obtain n2 where "appended st1 n2 st'" by blast
  ultimately show ?case by (blast intro: appended_trans)
qed

lemma process_remediations_appended:
  "process_remediations detail_response playbooks remediations keys = Inr st' \<Longrightarrow>
   \<exists>new. appended (remediations, keys) new st'"
  unfolding process_remediations_def
  by (auto split: option.splits dest: process_results_appended)

lemma session_inv_appended:
  "session_inv st \<Longrightarrow> appended st new st' \<Longrightarrow> session_inv st'"
  unfolding session_inv_def appended_def by auto

lemma process_pages_inv:
  "session_inv st \<Longrightarrow> process_pages playbooks pages st = Inr st' \<Longrightarrow> session_inv st'"
proof (induction pages arbitrary: st)
  case Nil
  then show ?case by simp
next
  case (Cons p ps)
  obtain rems keys where st: "st = (rems, keys)" by (cases st)
  from Cons.prems(2) st obtain st1
    where s1: "process_remediations p playbooks rems keys = Inr st1"
      and s2: "process_pages playbooks ps st1 = Inr st'"
    by (auto split: sum.splits)
  from process_remediations_appended[OF s1] Cons.prems(1) st
  have "session_inv st1" by (blast intro: session_inv_appended)
  from Cons.IH[OF this s2] show ?case .
qed

lemma well_keyed_key:
  "well_keyed r \<Longrightarrow> well_keyed r' \<Longrightarrow> triple r = triple r' \<Longrightarrow>
   ConfigRuleNamePlaybookIdResourceId r = ConfigRuleNamePlaybookIdResourceId r'"
  by (auto simp: well_keyed_def triple_def split: option.splits)

lemma session_inv_triples:
  assumes "session_inv st"
  shows "distinct (map triple (fst st))"
proof -
  from assms have d: "distinct (fst st)"
    and inj: "inj_on ConfigRuleNamePlaybookIdResourceId (set (fst st))"
    and wk: "\<forall>r \<in> set (fst st). well_keyed r"
    by (auto simp: session_inv_def distinct_map)
  have "inj_on triple (set (fst st))"
  proof (rule inj_onI)
    fix r r' assume a: "r \<in> set (fst st)" "r' \<in> set (fst st)" "triple r = triple r'"
    with wk well_keyed_key[of r r']
    have "ConfigRuleNamePlaybookIdResourceId r = ConfigRuleNamePlaybookIdResourceId r'" by blast
    with inj a show "r = r'" by (auto dest: inj_onD)
  qed
  with d show ?thesis by (simp add: distinct_map)
qed

lemma ex_prefix: "get_prefix ''restricted-ssh-conformance-pack-ab12cd'' = ''RESTRICTEDSSH''"
  by code_simp

lemma ex_first_page:
  "process_remediations ex_page ex_playbooks [] Map.empty
     = Inr ([ex_item], [''RESTRICTEDSSHPB1i-123'' \<mapsto> 1])"
  by (simp add: process_remediations_def ex_page_def ex_result_def process_result_def
      ex_qualifier_def ex_prefix ex_playbooks_def ex_playbook_def ex_item_def Let_def)

lemma ex_second_page:
  "process_remediations ex_page ex_playbooks [ex_item] [''RESTRICTEDSSHPB1i-123'' \<mapsto> 1]
     = Inr ([ex_item], [''RESTRICTEDSSHPB1i-123'' \<mapsto> 1])"
  by (simp add: process_remediations_def ex_page_def ex_result_def process_result_def
      ex_qualifier_def ex_prefix ex_playbooks_def ex_playbook_def Let_def)

lemma ex_session:
  "get_details_remediations ex_playbooks [ex_page, ex_page]
     = Inr ([ex_item], [''RESTRICTEDSSHPB1i-123'' \<mapsto> 1])"
  by (simp add: get_details_remediations_def ex_first_page ex_second_page)

text \<open>
  A result that the loop body leaves the state alone for, whatever the state, can be
  taken out of the page without changing what the call returns.
\<close>

lemma process_results_skip:
  assumes "\<And>st. process_result playbooks result st = Inr st"
  shows "process_results playbooks (before @ result # after) st
       = process_results playbooks (before @ after) st"
  by (induction before arbitrary: st) (simp_all add: assms split: sum.splits)

lemma process_remediations_skip:
  assumes "\<And>st. process_result playbooks result st = (Inr st :: error + 'v session)"
  shows "process_remediations
           (d\<lparr>ConformancePackRuleEvaluationResults := Some (before @ result # after)\<rparr>)
           playbooks remediations keys
       = process_remediations
           (d\<lparr>ConformancePackRuleEvaluationResults := Some (before @ after)\<rparr>)
           playbooks remediations (keys :: string \<rightharpoonup> int)
     \<and> process_remediations (d\<lparr>ConformancePackRuleEvaluationResults := Some [result]\<rparr>)
           playbooks remediations keys
       = (Inr (remediations, keys) :: error + 'v session)"
  using process_results_skip[of playbooks result, OF assms]
  by (simp add: process_remediations_def assms)

text \<open>
  With a resource id, playbook ids different from one another and none of the keys
  seen before, the inner loop appends one item for each playbook, in order.
\<close>

lemma process_playbooks_fresh:
  assumes "q_ResourceId qual = Some rid"
  shows "distinct (map PlaybookId pbs) \<Longrightarrow>
    \<forall>pb \<in> set pbs. keys (pfx @ PlaybookId pb @ rid) = None \<Longrightarrow>
    \<exists>keys'. process_playbooks pfx qual pbs (rems, keys)
       = Inr (rems @ map (\<lambda>pb.
                \<lparr>ConfigRuleNamePlaybookIdResourceId = pfx @ PlaybookId pb @ rid,
                  r_ConfigRuleName = q_ConfigRuleName qual,
                  r_ConfigRuleNamePrefix = pfx,
                  r_PlaybookId = PlaybookId pb,
                  r_ResourceType = q_ResourceType qual,
                  r_ResourceId = Some rid,
                  r_LOEHours = LOEHours pb,
                  r_LOESprints = LOESprints pb,
                  r_SkillLevel = SkillLevel pb,
                  r_Rank = Rank pb\<rparr>) pbs, keys')
     \<and> dom keys' = dom keys \<union> (\<lambda>pb. pfx @ PlaybookId pb @ rid) ` set pbs"
proof (induction pbs arbitrary: rems keys)
  case Nil
  then show ?case by simp
next
  case (Cons pb pbs)
  let ?key = "pfx @ PlaybookId pb @ rid"
  let ?keys1 = "keys(?key \<mapsto> 1)"
  from Cons.prems have d: "distinct (map PlaybookId pbs)" by simp
  have fresh: "\<forall>pb' \<in> set pbs. ?keys1 (pfx @ PlaybookId pb' @ rid) = None"
  proof
    fix pb' assume m: "pb' \<in> set pbs"
    from Cons.prems(1) have "PlaybookId pb \<notin> PlaybookId ` set pbs" by simp
    with m have "PlaybookId pb' \<noteq> PlaybookId pb" by (auto simp: image_iff)
    moreover from m Cons.prems(2) have "keys (pfx @ PlaybookId pb' @ rid) = None" by simp
    ultimately show "?keys1 (pfx @ PlaybookId pb' @ rid) = None" by simp
  qed
  from Cons.prems(2) have none: "keys ?key = None" by simp
  from Cons.IH[OF d fresh] obtain keys' where
    k: "process_playbooks pfx qual pbs
          (rems @ [\<lparr>ConfigRuleNamePlaybookIdResourceId = ?key,
                  r_ConfigRuleName = q_ConfigRuleName qual,
                  r_ConfigRuleNamePrefix = pfx,
                  r_PlaybookId = PlaybookId pb,
                  r_ResourceType = q_ResourceType qual,
                  r_ResourceId = Some rid,
                  r_LOEHours = LOEHours pb,
                  r_LOESprints = LOESprints pb,
                  r_SkillLevel = SkillLevel pb,
                  r_Rank = Rank pb\<rparr>], ?keys1)
       = Inr ((rems @ [\<lparr>ConfigRuleNamePlaybookIdResourceId = ?key,
                  r_ConfigRuleName = q_ConfigRuleName qual,
                  r_ConfigRuleNamePrefix = pfx,
                  r_PlaybookId = PlaybookId pb,
                  r_ResourceType = q_ResourceType qual,
                  r_ResourceId = Some rid,
                  r_LOEHours = LOEHours pb,
                  r_LOESprints = LOESprints pb,
                  r_SkillLevel = SkillLevel pb,
                  r_Rank = Rank pb\<rparr>]) @ map (\<lambda>pb.
                \<lparr>ConfigRuleNamePlaybookIdResourceId = pfx @ PlaybookId pb @ rid,
                  r_ConfigRuleName = q_ConfigRuleName qual,
                  r_ConfigRuleNamePrefix = pfx,
                  r_PlaybookId = PlaybookId pb,
                  r_ResourceType = q_ResourceType qual,
                  r_ResourceId = Some rid,
                  r_LOEHours = LOEHours pb,
                  r_LOESprints = LOESprints pb,
                  r_SkillLevel = SkillLevel pb,
                  r_Rank = Rank pb\<rparr>) pbs, keys')"
    and dk: "dom keys' = dom ?keys1 \<union> (\<lambda>pb. pfx @ PlaybookId pb @ rid) ` set pbs"
    by blast
  show ?case
  proof (intro exI[of _ keys'] conjI)
    show "dom keys' = dom keys \<union> (\<lambda>pb. pfx @ PlaybookId pb @ rid) ` set (pb # pbs)"
      using dk by auto
  next
    show "process_playbooks pfx qual (pb # pbs) (rems, keys) =
      Inr (rems @ map (\<lambda>pb.
                \<lparr>ConfigRuleNamePlaybookIdResourceId = pfx @ PlaybookId pb @ rid,
                  r_ConfigRuleName = q_ConfigRuleName qual,
                  r_ConfigRuleNamePrefix = pfx,
                  r_PlaybookId = PlaybookId pb,
                  r_ResourceType = q_ResourceType qual,
                  r_ResourceId = Some rid,
                  r_LOEHours = LOEHours pb,
                  r_LOESprints = LOESprints pb,
                  r_SkillLevel = SkillLevel pb,
                  r_Rank = Rank pb\<rparr>) (pb # pbs), keys')"
      using k none by (simp add: assms Let_def)
  qed
qed

text \<open>A result that fails whatever the state makes the whole page fail.\<close>

lemma process_results_fails:
  assumes "\<And>st. isl (process_result playbooks result st)"
  shows "isl (process_results playbooks (before @ result # after) st)"
proof (induction before arbitrary: st)
  case Nil
  from assms[of st] show ?case by (cases "process_result playbooks result st") auto
next
  case (Cons r rs)
  then show ?case by (cases "process_result playbooks r st") auto
qed

lemma process_result_lacks_rule_name:
  "ComplianceType result = Some ''NON_COMPLIANT'' \<Longrightarrow> lacks_rule_name result \<Longrightarrow>
   process_result playbooks result st = Inl AttributeError"
  by (auto simp: process_result_def lacks_rule_name_def split: option.splits)

lemma process_result_lacks_resource_id:
  "ComplianceType result = Some ''NON_COMPLIANT'' \<Longrightarrow>
   EvaluationResultIdentifier result = Some ident \<Longrightarrow>
   EvaluationResultQualifier ident = Some qual \<Longrightarrow>
   q_ConfigRuleName qual = Some config_rule_name \<Longrightarrow>
   q_ResourceId qual = None \<Longrightarrow>
   playbooks (get_prefix config_rule_name) = Some (playbook # rest) \<Longrightarrow>
   process_result playbooks result st = Inl TypeError"
  by (cases st) (simp add: process_result_def)

section \<open>Claims about \<^verbatim>\<open>process_remediations\<close>\<close>

text \<open>
  C10. A call of \<^verbatim>\<open>process_remediations\<close> that returns only extends the state it was
  given: the list it received is a prefix of the list it returns, every key it
  received is still in the key set, the items added to the list have keys different
  from one another, and these keys are exactly the keys added to the key set.
\<close>

theorem process_remediations_extends:
  assumes "process_remediations detail_response playbooks remediations keys
             = Inr (remediations', keys')"
  shows "prefix remediations remediations'
    \<and> dom keys \<subseteq> dom keys'
    \<and> distinct (map ConfigRuleNamePlaybookIdResourceId
         (drop (length remediations) remediations'))
    \<and> set (map ConfigRuleNamePlaybookIdResourceId
         (drop (length remediations) remediations')) = dom keys' - dom keys"
proof -
  from process_remediations_appended[OF assms] obtain new
    where "appended (remediations, keys) new (remediations', keys')" by blast
  then show ?thesis
    unfolding appended_def by auto
qed



theorem process_remediations_extends_witness:
  "process_remediations ex_page ex_playbooks [] Map.empty
     = Inr ([ex_item], [''RESTRICTEDSSHPB1i-123'' \<mapsto> 1])
   \<and> prefix [] [ex_item]
   \<and> dom (Map.empty :: string \<rightharpoonup> int) \<subseteq> dom [''RESTRICTEDSSHPB1i-123'' \<mapsto> (1::int)]
   \<and> set (map ConfigRuleNamePlaybookIdResourceId (drop (length ([] :: string remediation list)) [ex_item]))
       = dom [''RESTRICTEDSSHPB1i-123'' \<mapsto> (1::int)] - dom (Map.empty :: string \<rightharpoonup> int)"
  using process_remediations_extends[OF ex_first_page] ex_first_page by simp

text \<open>
  C1. In a session (\<^verbatim>\<open>get_details\<close> starts from an empty list and an empty key set and
  passes both through every call of \<^verbatim>\<open>process_remediations\<close>) the work items
  gathered have keys different from one another, and so there is at most one work item
  for a triple of prefix, playbook id and resource id, also when the triple comes up on
  two pages.
\<close>

theorem session_keys_distinct:
  assumes "get_details_remediations playbooks pages = Inr (remediations, keys)"
  shows "distinct (map ConfigRuleNamePlaybookIdResourceId remediations)
    \<and> distinct (map triple remediations)"
proof -
  have "session_inv (([], Map.empty) :: 'a session)"
    by (simp add: session_inv_def)
  from process_pages_inv[OF this assms[unfolded get_details_remediations_def]]
  have inv: "session_inv (remediations, keys)" .
  from session_inv_triples[OF inv] inv show ?thesis
    by (simp add: session_inv_def)
qed



theorem session_keys_distinct_witness:
  "get_details_remediations ex_playbooks [ex_page, ex_page]
     = Inr ([ex_item], [''RESTRICTEDSSHPB1i-123'' \<mapsto> 1])
   \<and> distinct (map ConfigRuleNamePlaybookIdResourceId [ex_item])
   \<and> distinct (map triple [ex_item])"
  using session_keys_distinct[OF ex_session] ex_session by simp

text \<open>
  C5. A result whose compliance type is not \<^verbatim>\<open>NON_COMPLIANT\<close> adds nothing: the call
  returns what it returns for the page without that result, and a page made of that
  result alone leaves the list and the key set as they were, whatever the catalog.
\<close>

theorem compliant_result_ignored:
  assumes "ComplianceType result \<noteq> Some ''NON_COMPLIANT''"
  shows "process_remediations
           (d\<lparr>ConformancePackRuleEvaluationResults := Some (before @ result # after)\<rparr>)
           playbooks remediations keys
       = process_remediations
           (d\<lparr>ConformancePackRuleEvaluationResults := Some (before @ after)\<rparr>)
           playbooks remediations keys
     \<and> process_remediations (d\<lparr>ConformancePackRuleEvaluationResults := Some [result]\<rparr>)
           playbooks remediations keys
       = Inr (remediations, keys)"
proof (rule process_remediations_skip)
  fix st :: "'a session"
  from assms show "process_result playbooks result st = Inr st"
    by (simp add: process_result_def)
qed

theorem compliant_result_ignored_witness:
  "ComplianceType (ex_result\<lparr>ComplianceType := Some ''COMPLIANT''\<rparr>) \<noteq> Some ''NON_COMPLIANT''
   \<and> process_remediations
        (ex_page\<lparr>ConformancePackRuleEvaluationResults :=
           Some [ex_result\<lparr>ComplianceType := Some ''COMPLIANT''\<rparr>]\<rparr>)
        ex_playbooks [] Map.empty
      = Inr ([], Map.empty)"
proof -
  have a: "ComplianceType (ex_result\<lparr>ComplianceType := Some ''COMPLIANT''\<rparr>)
             \<noteq> Some ''NON_COMPLIANT''"
    by simp
  from compliant_result_ignored[OF a, where d = ex_page and before = "[]" and after = "[]"
      and playbooks = ex_playbooks and remediations = "[]" and keys = Map.empty] a
  show ?thesis by blast
qed

text \<open>
  C7. A non-compliant result whose prefix is not in the catalog, or is there with an
  empty list, adds nothing and raises nothing: the call returns what it returns for
  the page without that result, and a page made of that result alone returns the list
  and the key set as they were.
\<close>

theorem unmatched_prefix_silent:
  assumes "ComplianceType result = Some ''NON_COMPLIANT''"
    and "EvaluationResultIdentifier result = Some ident"
    and "EvaluationResultQualifier ident = Some qual"
    and "q_ConfigRuleName qual = Some config_rule_name"
    and "playbooks (get_prefix config_rule_name) = None
         \<or> playbooks (get_prefix config_rule_name) = Some []"
  shows "process_remediations
           (d\<lparr>ConformancePackRuleEvaluationResults := Some (before @ result # after)\<rparr>)
           playbooks remediations keys
       = process_remediations
           (d\<lparr>ConformancePackRuleEvaluationResults := Some (before @ after)\<rparr>)
           playbooks remediations keys
     \<and> process_remediations (d\<lparr>ConformancePackRuleEvaluationResults := Some [result]\<rparr>)
           playbooks remediations keys
       = Inr (remediations, keys)"
proof (rule process_remediations_skip)
  fix st :: "'a session"
  from assms show "process_result playbooks result st = Inr st"
    by (auto simp: process_result_def)
qed

theorem unmatched_prefix_silent_witness:
  "ComplianceType ex_result = Some ''NON_COMPLIANT''
   \<and> EvaluationResultIdentifier ex_result
        = Some \<lparr>EvaluationResultQualifier = Some ex_qualifier\<rparr>
   \<and> EvaluationResultQualifier \<lparr>EvaluationResultQualifier = Some ex_qualifier\<rparr>
        = Some ex_qualifier
   \<and> q_ConfigRuleName ex_qualifier = Some ''restricted-ssh-conformance-pack-ab12cd''
   \<and> (Map.empty :: string playbooks) (get_prefix ''restricted-ssh-conformance-pack-ab12cd'')
        = None
   \<and> process_remediations (ex_page\<lparr>ConformancePackRuleEvaluationResults := Some [ex_result]\<rparr>)
        (Map.empty :: string playbooks) [] Map.empty
      = Inr ([], Map.empty)"
proof -
  have a: "ComplianceType ex_result = Some ''NON_COMPLIANT''"
    by (simp add: ex_result_def)
  have b: "EvaluationResultIdentifier ex_result
        = Some \<lparr>EvaluationResultQualifier = Some ex_qualifier\<rparr>"
    by (simp add: ex_result_def)
  have c: "EvaluationResultQualifier \<lparr>EvaluationResultQualifier = Some ex_qualifier\<rparr>
        = Some ex_qualifier"
    by simp
  have d: "q_ConfigRuleName ex_qualifier = Some ''restricted-ssh-conformance-pack-ab12cd''"
    by (simp add: ex_qualifier_def)
  have e: "(Map.empty :: string playbooks) (get_prefix ''restricted-ssh-conformance-pack-ab12cd'')
        = None
      \<or> (Map.empty :: string playbooks) (get_prefix ''restricted-ssh-conformance-pack-ab12cd'')
        = Some []"
    by simp
  have f: "(Map.empty :: string playbooks) (get_prefix ''restricted-ssh-conformance-pack-ab12cd'')
        = None"
    by simp
  from unmatched_prefix_silent[OF a b c d e, where d = ex_page and before = "[]" and after = "[]"
      and remediations = "[]" and keys = Map.empty] a b c d f
  show ?thesis by blast
qed

text \<open>
  C6. A non-compliant result with a rule name and a resource id, whose prefix has \<open>n\<close>
  catalog entries with playbook ids different from one another, processed from the
  empty list and the empty key set, gives exactly one work item for each entry, in the
  order of the entries: its key is the prefix, the entry's playbook id and the resource
  id put together, it carries the entry's four effort fields, and the \<open>n\<close> keys are
  different from one another and are the keys recorded.
\<close>

theorem fan_out:
  assumes "ComplianceType result = Some ''NON_COMPLIANT''"
    and "EvaluationResultIdentifier result = Some ident"
    and "EvaluationResultQualifier ident = Some qual"
    and "q_ConfigRuleName qual = Some config_rule_name"
    and "q_ResourceId qual = Some resource_id"
    and "playbooks (get_prefix config_rule_name) = Some entries"
    and "distinct (map PlaybookId entries)"
  shows "\<exists>keys'.
      process_remediations (d\<lparr>ConformancePackRuleEvaluationResults := Some [result]\<rparr>)
        playbooks [] Map.empty
      = Inr (map (\<lambda>entry.
                \<lparr>ConfigRuleNamePlaybookIdResourceId =
                    get_prefix config_rule_name @ PlaybookId entry @ resource_id,
                  r_ConfigRuleName = Some config_rule_name,
                  r_ConfigRuleNamePrefix = get_prefix config_rule_name,
                  r_PlaybookId = PlaybookId entry,
                  r_ResourceType = q_ResourceType qual,
                  r_ResourceId = Some resource_id,
                  r_LOEHours = LOEHours entry,
                  r_LOESprints = LOESprints entry,
                  r_SkillLevel = SkillLevel entry,
                  r_Rank = Rank entry\<rparr>) entries, keys')
      \<and> dom keys' = set (map (\<lambda>entry. get_prefix config_rule_name @ PlaybookId entry @ resource_id) entries)
      \<and> distinct (map (\<lambda>entry. get_prefix config_rule_name @ PlaybookId entry @ resource_id) entries)"
proof -
  let ?pfx = "get_prefix config_rule_name"
  have fresh: "\<forall>pb \<in> set entries. (Map.empty :: string \<rightharpoonup> int) (?pfx @ PlaybookId pb @ resource_id) = None"
    by simp
  from process_playbooks_fresh[OF assms(5) assms(7) fresh, where rems = "[]"]
  obtain keys' where
    k: "process_playbooks ?pfx qual entries ([], Map.empty)
       = Inr ([] @ map (\<lambda>pb.
                \<lparr>ConfigRuleNamePlaybookIdResourceId = ?pfx @ PlaybookId pb @ resource_id,
                  r_ConfigRuleName = q_ConfigRuleName qual,
                  r_ConfigRuleNamePrefix = ?pfx,
                  r_PlaybookId = PlaybookId pb,
                  r_ResourceType = q_ResourceType qual,
                  r_ResourceId = Some resource_id,
                  r_LOEHours = LOEHours pb,
                  r_LOESprints = LOESprints pb,
                  r_SkillLevel = SkillLevel pb,
                  r_Rank = Rank pb\<rparr>) entries, keys')"
    and dk: "dom keys' = dom (Map.empty :: string \<rightharpoonup> int) \<union> (\<lambda>pb. ?pfx @ PlaybookId pb @ resource_id) ` set entries"
    by blast
  have dist: "distinct (map (\<lambda>entry. ?pfx @ PlaybookId entry @ resource_id) entries)"
  proof -
    have "inj (\<lambda>p :: string. ?pfx @ p @ resource_id)" by (simp add: inj_def)
    then have "distinct (map (\<lambda>p. ?pfx @ p @ resource_id) (map PlaybookId entries))"
      using assms(7) by (simp only: distinct_map) (auto intro: inj_on_subset)
    then show ?thesis by (simp add: comp_def)
  qed
  have run: "process_result playbooks result ([], Map.empty)
     = process_playbooks ?pfx qual entries ([], Map.empty)"
  proof (cases entries)
    case Nil
    with assms(1-4,6) show ?thesis by (simp add: process_result_def)
  next
    case (Cons e es)
    with assms(1-4,6) show ?thesis
      by (simp add: process_result_def del: process_playbooks.simps)
  qed
  show ?thesis
    using k dk dist run assms(4)
    by (intro exI[of _ keys']) (simp add: process_remediations_def)
qed

theorem fan_out_witness:
  "length ex_entries = 3
   \<and> distinct (map PlaybookId ex_entries)
   \<and> ex_playbooks3 (get_prefix ''restricted-ssh-conformance-pack-ab12cd'') = Some ex_entries
   \<and> (\<exists>keys'.
      process_remediations (ex_page\<lparr>ConformancePackRuleEvaluationResults := Some [ex_result]\<rparr>)
        ex_playbooks3 [] Map.empty
      = Inr (map (\<lambda>entry.
                \<lparr>ConfigRuleNamePlaybookIdResourceId =
                    get_prefix ''restricted-ssh-conformance-pack-ab12cd''
                      @ PlaybookId entry @ ''i-123'',
                  r_ConfigRuleName = Some ''restricted-ssh-conformance-pack-ab12cd'',
                  r_ConfigRuleNamePrefix = get_prefix ''restricted-ssh-conformance-pack-ab12cd'',
                  r_PlaybookId = PlaybookId entry,
                  r_ResourceType = q_ResourceType ex_qualifier,
                  r_ResourceId = Some ''i-123'',
                  r_LOEHours = LOEHours entry,
                  r_LOESprints = LOESprints entry,
                  r_SkillLevel = SkillLevel entry,
                  r_Rank = Rank entry\<rparr>) ex_entries, keys')
      \<and> dom keys' = set (map (\<lambda>entry. get_prefix ''restricted-ssh-conformance-pack-ab12cd''
                      @ PlaybookId entry @ ''i-123'') ex_entries)
      \<and> distinct (map (\<lambda>entry. get_prefix ''restricted-ssh-conformance-pack-ab12cd''
                      @ PlaybookId entry @ ''i-123'') ex_entries))"
proof -
  have a: "ComplianceType ex_result = Some ''NON_COMPLIANT''"
    by (simp add: ex_result_def)
  have b: "EvaluationResultIdentifier ex_result
        = Some \<lparr>EvaluationResultQualifier = Some ex_qualifier\<rparr>"
    by (simp add: ex_result_def)
  have c: "EvaluationResultQualifier \<lparr>EvaluationResultQualifier = Some ex_qualifier\<rparr>
        = Some ex_qualifier"
    by simp
  have d: "q_ConfigRuleName ex_qualifier = Some ''restricted-ssh-conformance-pack-ab12cd''"
    by (simp add: ex_qualifier_def)
  have e: "q_ResourceId ex_qualifier = Some ''i-123''"
    by (simp add: ex_qualifier_def)
  have f: "ex_playbooks3 (get_prefix ''restricted-ssh-conformance-pack-ab12cd'') = Some ex_entries"
    by (simp add: ex_playbooks3_def ex_prefix)
  have g: "distinct (map PlaybookId ex_entries)"
    by (simp add: ex_entries_def ex_playbook_def)
  have n: "length ex_entries = 3"
    by (simp add: ex_entries_def)
  from fan_out[where result = ex_result and playbooks = ex_playbooks3 and d = ex_page
      and entries = ex_entries
      and config_rule_name = "''restricted-ssh-conformance-pack-ab12cd''",
      OF a b c d e f g] n g f
  show ?thesis
    by blast
qed

text \<open>
  C4, as stated, fails: a non-compliant result without a resource id whose prefix is
  not in the catalog is skipped, and the call returns normally with nothing added.
\<close>

theorem missing_resource_id_counterexample:
  "process_remediations
     \<lparr>ConformancePackName = Some ''pack1'',
      ConformancePackRuleEvaluationResults =
        Some [\<lparr>ComplianceType = Some ''NON_COMPLIANT'',
               EvaluationResultIdentifier =
                 Some \<lparr>EvaluationResultQualifier =
                   Some \<lparr>q_ConfigRuleName = Some ''my-rule-name'',
                         q_ResourceType = Some ''AWS::EC2::Instance'',
                         q_ResourceId = None\<rparr>\<rparr>\<rparr>],
      NextToken = None\<rparr>
     (Map.empty :: string playbooks) [] Map.empty
   = Inr ([], Map.empty)"
  by (simp add: process_remediations_def process_result_def)

text \<open>
  C4, amended. Take a non-compliant result on the page. If its identifier, its
  qualifier or its rule name is missing, the call fails. If only its resource id is
  missing, the call fails when the prefix of its rule name has a non-empty list of
  playbooks in the catalog; when the prefix has none, the result is skipped: the call
  returns what it returns for the page without it.
\<close>

theorem malformed_result_raises:
  assumes "ConformancePackRuleEvaluationResults d = Some (before @ result # after)"
    and "ComplianceType result = Some ''NON_COMPLIANT''"
  shows "(lacks_rule_name result \<longrightarrow>
            isl (process_remediations d playbooks remediations keys))
    \<and> (EvaluationResultIdentifier result = Some ident
        \<and> EvaluationResultQualifier ident = Some qual
        \<and> q_ConfigRuleName qual = Some config_rule_name
        \<and> q_ResourceId qual = None
        \<and> playbooks (get_prefix config_rule_name) = Some (playbook # rest) \<longrightarrow>
            isl (process_remediations d playbooks remediations keys))
    \<and> (EvaluationResultIdentifier result = Some ident
        \<and> EvaluationResultQualifier ident = Some qual
        \<and> q_ConfigRuleName qual = Some config_rule_name
        \<and> q_ResourceId qual = None
        \<and> (playbooks (get_prefix config_rule_name) = None
            \<or> playbooks (get_prefix config_rule_name) = Some []) \<longrightarrow>
            process_remediations d playbooks remediations keys
            = process_remediations
                (d\<lparr>ConformancePackRuleEvaluationResults := Some (before @ after)\<rparr>)
                playbooks remediations keys)"
proof (intro conjI impI)
  assume "lacks_rule_name result"
  with assms(2) have "\<And>st. isl (process_result playbooks result st)"
    by (simp add: process_result_lacks_rule_name)
  from process_results_fails[of playbooks result, OF this]
  show "isl (process_remediations d playbooks remediations keys)"
    by (simp add: process_remediations_def assms(1))
next
  assume "EvaluationResultIdentifier result = Some ident
        \<and> EvaluationResultQualifier ident = Some qual
        \<and> q_ConfigRuleName qual = Some config_rule_name
        \<and> q_ResourceId qual = None
        \<and> playbooks (get_prefix config_rule_name) = Some (playbook # rest)"
  with assms(2) have "\<And>st. isl (process_result playbooks result st)"
    by (simp add: process_result_lacks_resource_id)
  from process_results_fails[of playbooks result, OF this]
  show "isl (process_remediations d playbooks remediations keys)"
    by (simp add: process_remediations_def assms(1))
next
  assume a: "EvaluationResultIdentifier result = Some ident
        \<and> EvaluationResultQualifier ident = Some qual
        \<and> q_ConfigRuleName qual = Some config_rule_name
        \<and> q_ResourceId qual = None
        \<and> (playbooks (get_prefix config_rule_name) = None
            \<or> playbooks (get_prefix config_rule_name) = Some [])"
  have "\<And>st. process_result playbooks result st = Inr st"
    using a assms(2) by (auto simp: process_result_def)
  from process_results_skip[of playbooks result, OF this]
  show "process_remediations d playbooks remediations keys
            = process_remediations
                (d\<lparr>ConformancePackRuleEvaluationResults := Some (before @ after)\<rparr>)
                playbooks remediations keys"
    by (simp add: process_remediations_def assms(1))
qed

theorem malformed_result_raises_witness:
  "lacks_rule_name ex_no_qualifier
   \<and> isl (process_remediations
        (ex_page\<lparr>ConformancePackRuleEvaluationResults := Some [ex_result, ex_no_qualifier]\<rparr>)
        ex_playbooks [] Map.empty)
   \<and> q_ResourceId ex_qualifier_no_id = None
   \<and> ex_playbooks (get_prefix ''restricted-ssh-conformance-pack-ab12cd'') = Some [ex_playbook]
   \<and> isl (process_remediations
        (ex_page\<lparr>ConformancePackRuleEvaluationResults := Some [ex_no_resource_id]\<rparr>)
        ex_playbooks [] Map.empty)
   \<and> (Map.empty :: string playbooks) (get_prefix ''restricted-ssh-conformance-pack-ab12cd'') = None
   \<and> process_remediations
        (ex_page\<lparr>ConformancePackRuleEvaluationResults := Some [ex_no_resource_id, ex_result]\<rparr>)
        (Map.empty :: string playbooks) [] Map.empty
      = process_remediations
        (ex_page\<lparr>ConformancePackRuleEvaluationResults := Some [ex_result]\<rparr>)
        (Map.empty :: string playbooks) [] Map.empty"
proof -
  have p1: "ConformancePackRuleEvaluationResults
      (ex_page\<lparr>ConformancePackRuleEvaluationResults := Some [ex_result, ex_no_qualifier]\<rparr>)
      = Some ([ex_result] @ ex_no_qualifier # [])"
    by simp
  have n1: "ComplianceType ex_no_qualifier = Some ''NON_COMPLIANT''"
    by (simp add: ex_no_qualifier_def)
  have l1: "lacks_rule_name ex_no_qualifier"
    by (simp add: lacks_rule_name_def ex_no_qualifier_def)
  from malformed_result_raises[OF p1 n1, where playbooks = ex_playbooks
      and remediations = "[]" and keys = Map.empty] l1
  have r1: "isl (process_remediations
        (ex_page\<lparr>ConformancePackRuleEvaluationResults := Some [ex_result, ex_no_qualifier]\<rparr>)
        ex_playbooks [] Map.empty)"
    by blast
  have p2: "ConformancePackRuleEvaluationResults
      (ex_page\<lparr>ConformancePackRuleEvaluationResults := Some [ex_no_resource_id]\<rparr>)
      = Some ([] @ ex_no_resource_id # [])"
    by simp
  have n2: "ComplianceType ex_no_resource_id = Some ''NON_COMPLIANT''"
    by (simp add: ex_no_resource_id_def)
  have i2: "EvaluationResultIdentifier ex_no_resource_id
      = Some \<lparr>EvaluationResultQualifier = Some ex_qualifier_no_id\<rparr>"
    by (simp add: ex_no_resource_id_def)
  have q2: "EvaluationResultQualifier \<lparr>EvaluationResultQualifier = Some ex_qualifier_no_id\<rparr>
      = Some ex_qualifier_no_id"
    by simp
  have c2: "q_ConfigRuleName ex_qualifier_no_id = Some ''restricted-ssh-conformance-pack-ab12cd''"
    by (simp add: ex_qualifier_no_id_def ex_qualifier_def)
  have m2: "q_ResourceId ex_qualifier_no_id = None"
    by (simp add: ex_qualifier_no_id_def)
  have k2: "ex_playbooks (get_prefix ''restricted-ssh-conformance-pack-ab12cd'') = Some [ex_playbook]"
    by (simp add: ex_playbooks_def ex_prefix)
  from malformed_result_raises[OF p2 n2, where playbooks = ex_playbooks
      and remediations = "[]" and keys = Map.empty
      and ident = "\<lparr>EvaluationResultQualifier = Some ex_qualifier_no_id\<rparr>"
      and qual = ex_qualifier_no_id
      and config_rule_name = "''restricted-ssh-conformance-pack-ab12cd''"
      and playbook = ex_playbook and rest = "[]"] i2 q2 c2 m2 k2
  have r2: "isl (process_remediations
        (ex_page\<lparr>ConformancePackRuleEvaluationResults := Some [ex_no_resource_id]\<rparr>)
        ex_playbooks [] Map.empty)"
    by blast
  have p3: "ConformancePackRuleEvaluationResults
      (ex_page\<lparr>ConformancePackRuleEvaluationResults := Some [ex_no_resource_id, ex_result]\<rparr>)
      = Some ([] @ ex_no_resource_id # [ex_result])"
    by simp
  have k3: "(Map.empty :: string playbooks) (get_prefix ''restricted-ssh-conformance-pack-ab12cd'') = None"
    by simp
  from malformed_result_raises[OF p3 n2, where playbooks = "Map.empty :: string playbooks"
      and remediations = "[]" and keys = Map.empty
      and ident = "\<lparr>EvaluationResultQualifier = Some ex_qualifier_no_id\<rparr>"
      and qual = ex_qualifier_no_id
      and config_rule_name = "''restricted-ssh-conformance-pack-ab12cd''"] i2 q2 c2 m2 k3
  have r3: "process_remediations
        (ex_page\<lparr>ConformancePackRuleEvaluationResults := Some [ex_no_resource_id, ex_result]\<rparr>)
        (Map.empty :: string playbooks) [] Map.empty
      = process_remediations
        (ex_page\<lparr>ConformancePackRuleEvaluationResults := Some [ex_no_resource_id, ex_result]\<rparr>
           \<lparr>ConformancePackRuleEvaluationResults := Some ([] @ [ex_result])\<rparr>)
        (Map.empty :: string playbooks) [] Map.empty"
    by blast
  have r3': "process_remediations
        (ex_page\<lparr>ConformancePackRuleEvaluationResults := Some [ex_no_resource_id, ex_result]\<rparr>)
        (Map.empty :: string playbooks) [] Map.empty
      = process_remediations
        (ex_page\<lparr>ConformancePackRuleEvaluationResults := Some [ex_result]\<rparr>)
        (Map.empty :: string playbooks) [] Map.empty"
    using r3 by simp
  from l1 r1 m2 k2 r2 k3 r3' show ?thesis by blast
qed

section \<open>The catalog loader's loop\<close>

lemma loader_inv_add:
  assumes "loader_inv (items, keys)" and "keys (item_key i) = None"
  shows "loader_inv (items @ [i], keys(item_key i \<mapsto> 1))"
  using assms unfolding loader_inv_def by (auto simp: domIff)

lemma main_loop_inv:
  "loader_inv st \<Longrightarrow> main_loop rows st = Inr st' \<Longrightarrow> loader_inv st'"
proof (induction rows arbitrary: st)
  case Nil
  then show ?case by (cases st) simp
next
  case (Cons row rows)
  obtain items keys where st: "st = (items, keys)" by (cases st)
  show ?case
  proof (cases "truthy (AWS_Config row) \<and> truthy (Playbook_ID row)")
    case False
    with Cons.prems(2) st have "main_loop rows st = Inr st'"
      by (simp add: Let_def)
    from Cons.IH[OF Cons.prems(1) this] show ?thesis .
  next
    case True
    with Cons.prems(2) st obtain pid where pid: "Playbook_ID row = Text pid"
      by (cases "Playbook_ID row") (simp_all add: Let_def)
    let ?name = "build_normalized_name (AWS_Config row)"
    let ?key = "?name @ ''_'' @ pid"
    show ?thesis
    proof (cases "keys ?key = None")
      case False
      then obtain v where "keys ?key = Some v" by auto
      with True pid Cons.prems(2) st have "main_loop rows st = Inr st'"
        by (simp add: Let_def)
      from Cons.IH[OF Cons.prems(1) this] show ?thesis .
    next
      case none: True
      let ?item = "\<lparr>i_ConfigRuleName = ?name,
                       i_PlaybookId = pid,
                       i_LOEHours =
                         (if truthy (row_LOEHours row) then StrVal (py_str (row_LOEHours row))
                          else StrVal ''1''),
                       i_LOESprints =
                         (if truthy (row_LOESprints row) then StrVal (py_str (row_LOESprints row))
                          else IntVal DEFAULT_LOE_SPRINTS),
                       i_SkillLevel =
                         (if truthy (row_SkillLevel row) then StrVal (py_str (row_SkillLevel row))
                          else IntVal DEFAULT_SKILL_LEVEL),
                       i_Rank =
                         (if truthy (row_Rank row) then StrVal (py_str (row_Rank row))
                          else IntVal DEFAULT_RANK)\<rparr>"
      have ik: "item_key ?item = ?key" by (simp add: item_key_def)
      from none True pid Cons.prems(2) st
      have run: "main_loop rows (items @ [?item], keys(?key \<mapsto> 1)) = Inr st'"
        by (simp add: Let_def)
      from Cons.prems(1) st none ik
      have "loader_inv (items @ [?item], keys(item_key ?item \<mapsto> 1))"
        by (intro loader_inv_add) simp_all
      then have "loader_inv (items @ [?item], keys(?key \<mapsto> 1))"
        by (simp only: ik)
      from Cons.IH[OF this run] show ?thesis .
    qed
  qed
qed

lemma distinct_item_pairs:
  assumes "distinct (map item_key items)"
  shows "distinct (map (\<lambda>i. (i_ConfigRuleName i, i_PlaybookId i)) items)"
proof -
  have "map item_key items
      = map (\<lambda>(name, pid). name @ ''_'' @ pid)
          (map (\<lambda>i. (i_ConfigRuleName i, i_PlaybookId i)) items)"
    by (simp add: item_key_def)
  with assms have "distinct (map (\<lambda>(name, pid). name @ ''_'' @ pid)
          (map (\<lambda>i. (i_ConfigRuleName i, i_PlaybookId i)) items))"
    by (simp only:)
  then show ?thesis by (simp only: distinct_map)
qed

lemma ex_names:
  "build_normalized_name (Text ''restricted-ssh'') = ''INCOMINGSSHDISABLED''"
  "build_normalized_name (Text ''incoming_ssh_disabled'') = ''INCOMINGSSHDISABLED''"
  "build_normalized_name (Text ''s3-bucket-ssl'') = ''S3BUCKETSSL''"
  by code_simp+

lemma ex_load:
  "main_items [ex_row ''restricted-ssh'' ''PB1'', ex_row ''incoming_ssh_disabled'' ''PB1'',
               ex_row ''s3-bucket-ssl'' ''PB1'']
   = Inr [\<lparr>i_ConfigRuleName = ''INCOMINGSSHDISABLED'', i_PlaybookId = ''PB1'',
            i_LOEHours = StrVal ''2'', i_LOESprints = IntVal 1, i_SkillLevel = IntVal 1,
            i_Rank = IntVal 1\<rparr>,
          \<lparr>i_ConfigRuleName = ''S3BUCKETSSL'', i_PlaybookId = ''PB1'',
            i_LOEHours = StrVal ''2'', i_LOESprints = IntVal 1, i_SkillLevel = IntVal 1,
            i_Rank = IntVal 1\<rparr>]"
  by (simp add: main_items_def ex_row_def ex_names Let_def DEFAULT_LOE_SPRINTS_def
      DEFAULT_SKILL_LEVEL_def DEFAULT_RANK_def)

text \<open>
  C9. When the loader's loop over the sheet completes, no two of the items it hands to
  the table have both the same normalized rule name and the same playbook id.
\<close>

theorem loader_pairs_distinct:
  assumes "main_items rows = Inr items"
  shows "distinct (map (\<lambda>i. (i_ConfigRuleName i, i_PlaybookId i)) items)"
proof -
  from assms obtain keys where run: "main_loop rows ([], Map.empty) = Inr (items, keys)"
    by (auto simp: main_items_def split: sum.splits)
  have "loader_inv (([], Map.empty) :: item list \<times> (string \<rightharpoonup> int))"
    by (simp add: loader_inv_def)
  from main_loop_inv[OF this run] have "distinct (map item_key items)"
    by (simp add: loader_inv_def)
  then show ?thesis by (rule distinct_item_pairs)
qed

theorem loader_pairs_distinct_witness:
  "main_items [ex_row ''restricted-ssh'' ''PB1'', ex_row ''incoming_ssh_disabled'' ''PB1'',
               ex_row ''s3-bucket-ssl'' ''PB1'']
   = Inr [\<lparr>i_ConfigRuleName = ''INCOMINGSSHDISABLED'', i_PlaybookId = ''PB1'',
            i_LOEHours = StrVal ''2'', i_LOESprints = IntVal 1, i_SkillLevel = IntVal 1,
            i_Rank = IntVal 1\<rparr>,
          \<lparr>i_ConfigRuleName = ''S3BUCKETSSL'', i_PlaybookId = ''PB1'',
            i_LOEHours = StrVal ''2'', i_LOESprints = IntVal 1, i_SkillLevel = IntVal 1,
            i_Rank = IntVal 1\<rparr>]
   \<and> distinct [(''INCOMINGSSHDISABLED'', ''PB1''), (''S3BUCKETSSL'', ''PB1'')]"
  using loader_pairs_distinct[OF ex_load] ex_load by simp

end
